theory Spec2Isabelle
  imports Main
begin

section \<open>The idea pipeline: arrival detection, stability polling and per-file orchestration\<close>

text \<open>
  A shallow embedding of \<^verbatim>\<open>src/Idea.py\<close>. Everything the script obtains from outside
  (the result of one size poll, the exit of the Whisper tool, the reply of the Ollama
  endpoint, whether a write, a post or a removal raises) is an input of the model, and
  everything it does to the outside (sleeping, calling a collaborator, writing the note,
  removing the source file) is appended to a trace of actions. Printing is not modelled.
\<close>

subsection \<open>What the outside world answers\<close>

text \<open>
  One iteration of the polling loop sees one of three things: \<^verbatim>\<open>os.path.exists\<close> is
  false; \<^verbatim>\<open>os.path.getsize\<close> raises \<^verbatim>\<open>OSError\<close>; or the size is read.
\<close>

datatype poll = Missing | Locked | Size nat

text \<open>
  \<^verbatim>\<open>subprocess.run(..., check=True)\<close> inside \<^verbatim>\<open>transcribe_audio\<close> raises
  \<^verbatim>\<open>CalledProcessError\<close>, or something else raises inside the function (the executable is
  not found, the output cannot be decoded), or the tool exits normally and its output text
  file either exists with some content or does not exist.
\<close>

datatype whisper_run = CalledProcessError | WhisperFault | Exited "string option"

text \<open>
  The HTTP exchange of \<^verbatim>\<open>format_text\<close>: a \<^verbatim>\<open>RequestException\<close> (connection refused, bad
  status), a JSON reply whose \<^verbatim>\<open>"response"\<close> field is present or absent, or any other
  exception.
\<close>

datatype http_reply = RequestException | Reply "string option" | HttpFault

datatype outcome = Done | Raises

datatype error = KeyError | Exception

record env =
  polls :: "poll list"
  whisper :: whisper_run
  ollama :: http_reply
  write_note :: outcome
  ntfy_post :: outcome
  os_remove :: outcome
  basename :: "string \<Rightarrow> string"
  splitext_root :: "string \<Rightarrow> string"
  path_join :: "string \<Rightarrow> string \<Rightarrow> string"

text \<open>
  \<open>polls\<close> is the finite prefix of poll answers the run gets to see; \<open>basename\<close>,
  \<open>splitext_root\<close> (the first component of \<^verbatim>\<open>os.path.splitext\<close>) and \<open>path_join\<close>
  stand for the functions of \<^verbatim>\<open>os.path\<close>, which are not part of the repository.
\<close>

subsection \<open>What the script does to the outside world\<close>

datatype action =
    Slept
  | Transcribe string
  | Format string
  | Persist string string outcome
  | Notify string outcome
  | Cleanup string outcome

text \<open>
  \<open>Slept\<close> is \<^verbatim>\<open>time.sleep(5)\<close>; \<open>Transcribe p\<close> the call \<^verbatim>\<open>transcribe_audio(p)\<close>;
  \<open>Format t\<close> the call \<^verbatim>\<open>format_text(t)\<close>; \<open>Persist p n r\<close> opening \<open>p\<close> and writing
  the note \<open>n\<close>; \<open>Notify m r\<close> the post of message \<open>m\<close> to ntfy;
  \<open>Cleanup p r\<close> the call \<^verbatim>\<open>os.remove(p)\<close>. The outcome says whether the call
  completed or raised.
\<close>

fun is_stage :: "action \<Rightarrow> bool" where
  "is_stage Slept = False"
| "is_stage _ = True"

definition stages :: "action list \<Rightarrow> action list" where
  "stages acts = filter is_stage acts"

subsection \<open>Configuration\<close>

definition FINAL_OUTPUT_FOLDER :: string where
  "FINAL_OUTPUT_FOLDER = ''D:'' @ [CHR 0x5C] @ ''Projects'' @ [CHR 0x5C] @ ''Formatted-Ideas''"

definition max_stable_count :: nat where
  "max_stable_count = 3"

subsection \<open>Helper functions: format and transcribe\<close>

definition format_text :: "http_reply \<Rightarrow> string \<Rightarrow> error + string" where
  "format_text reply text_to_format =
     (case reply of
        Reply (Some formatted_text) \<Rightarrow> Inr formatted_text
      | Reply None \<Rightarrow> Inr ''Error: No response from Ollama''
      | RequestException \<Rightarrow>
          Inr (''Error: Could not connect to Ollama. Raw text: '' @ text_to_format)
      | HttpFault \<Rightarrow> Inl Exception)"

definition transcribe_audio :: "whisper_run \<Rightarrow> error + string option" where
  "transcribe_audio run =
     (case run of
        Exited (Some transcribed_text) \<Rightarrow> Inr (Some transcribed_text)
      | Exited None \<Rightarrow> Inr None
      | CalledProcessError \<Rightarrow> Inr None
      | WhisperFault \<Rightarrow> Inl Exception)"

text \<open>Python's truth value of \<^verbatim>\<open>raw_text\<close>: \<^verbatim>\<open>None\<close> and the empty string are false.\<close>

fun truthy :: "string option \<Rightarrow> bool" where
  "truthy None = False"
| "truthy (Some t) = (t \<noteq> [])"

subsection \<open>The sentry: admission\<close>

record event =
  is_directory :: bool
  src_path :: string

definition endswith :: "string \<Rightarrow> string \<Rightarrow> bool" where
  "endswith s suf =
     (length suf \<le> length s \<and> drop (length s - length suf) s = suf)"

definition audio_suffixes :: "string list" where
  "audio_suffixes = [''.mp3'', ''.m4a'', ''.wav'', ''.ogg'', ''.aac'']"

text \<open>
  \<open>start_stability_check\<close> returns the new set \<^verbatim>\<open>files_being_checked\<close> and, when a
  worker thread is started, the path the thread is started on.
\<close>

definition start_stability_check :: "string set \<Rightarrow> string \<Rightarrow> string set \<times> string option" where
  "start_stability_check files_being_checked file_path =
     (if file_path \<notin> files_being_checked
         \<and> list_ex (endswith file_path) audio_suffixes
      then (insert file_path files_being_checked, Some file_path)
      else (files_being_checked, None))"

definition on_created :: "string set \<Rightarrow> event \<Rightarrow> string set \<times> string option" where
  "on_created files_being_checked ev =
     (if is_directory ev then (files_being_checked, None)
      else start_stability_check files_being_checked (src_path ev))"

definition on_modified :: "string set \<Rightarrow> event \<Rightarrow> string set \<times> string option" where
  "on_modified files_being_checked ev =
     (if is_directory ev then (files_being_checked, None)
      else start_stability_check files_being_checked (src_path ev))"

subsection \<open>The sentry: the polling loop\<close>

record sentry =
  files_being_checked :: "string set"
  last_size :: int
  stable_count :: nat
  trace :: "action list"

datatype loop_exit = Polling | Disappeared | Crashed error | Stable

text \<open>
  The \<^verbatim>\<open>while\<close> loop of \<^verbatim>\<open>check_and_process_thread\<close>, run on the poll answers it gets.
  \<open>Polling\<close> means the answers ran out with the loop still going; \<open>Stable\<close> that the
  loop condition became false; \<open>Disappeared\<close> the early \<^verbatim>\<open>return\<close>;
  \<open>Crashed KeyError\<close> that \<^verbatim>\<open>set.remove\<close> raised on a path that is not in the set,
  which nothing in the thread catches.
\<close>

fun stability_loop :: "poll list \<Rightarrow> string \<Rightarrow> sentry \<Rightarrow> loop_exit \<times> sentry" where
  "stability_loop [] file_path s =
     (if stable_count s < max_stable_count then (Polling, s) else (Stable, s))"
| "stability_loop (p # rest) file_path s =
     (if stable_count s < max_stable_count then
        (case p of
           Missing \<Rightarrow>
             (if file_path \<in> files_being_checked s
              then (Disappeared,
                    s\<lparr>files_being_checked := files_being_checked s - {file_path}\<rparr>)
              else (Crashed KeyError, s))
         | Locked \<Rightarrow> stability_loop rest file_path (s\<lparr>trace := trace s @ [Slept]\<rparr>)
         | Size current_size \<Rightarrow>
             (if int current_size = last_size s \<and> current_size > 0
              then stability_loop rest file_path
                     (s\<lparr>stable_count := stable_count s + 1,
                        last_size := int current_size,
                        trace := trace s @ [Slept]\<rparr>)
              else stability_loop rest file_path
                     (s\<lparr>stable_count := 0,
                        last_size := int current_size,
                        trace := trace s @ [Slept]\<rparr>)))
      else (Stable, s))"

subsection \<open>The sentry: processing a stable file\<close>

datatype ending = Pending | Abandoned | Uncaught error | Completed | Unhandled

record run =
  registry :: "string set"
  actions :: "action list"
  ending :: ending

text \<open>Stages 2 to 4, the body of \<^verbatim>\<open>if raw_text:\<close>. An exception leaves the block.\<close>

definition note_stages :: "env \<Rightarrow> string \<Rightarrow> string \<Rightarrow> action list \<Rightarrow> error option \<times> action list" where
  "note_stages e file_name raw_text acts =
     (case format_text (ollama e) raw_text of
        Inl err \<Rightarrow> (Some err, acts @ [Format raw_text])
      | Inr formatted_note \<Rightarrow>
          (let final_filename = splitext_root e file_name @ ''.txt'';
               final_path = path_join e FINAL_OUTPUT_FOLDER final_filename
           in case write_note e of
                Raises \<Rightarrow>
                  (Some Exception,
                   acts @ [Format raw_text, Persist final_path formatted_note Raises])
              | Done \<Rightarrow>
                  (None,
                   acts @ [Format raw_text, Persist final_path formatted_note Done,
                           Notify (''New idea captured: '' @ final_filename) (ntfy_post e)])))"

text \<open>The body of the outer \<^verbatim>\<open>try\<close>: stages 1 to 5.\<close>

definition try_body :: "env \<Rightarrow> string \<Rightarrow> action list \<Rightarrow> error option \<times> action list" where
  "try_body e file_path acts =
     (let file_name = basename e file_path in
      case transcribe_audio (whisper e) of
        Inl err \<Rightarrow> (Some err, acts @ [Transcribe file_path])
      | Inr raw_text \<Rightarrow>
          (case (if truthy raw_text
                 then note_stages e file_name (the raw_text) (acts @ [Transcribe file_path])
                 else (None, acts @ [Transcribe file_path])) of
             (Some err, acts') \<Rightarrow> (Some err, acts')
           | (None, acts') \<Rightarrow> (None, acts' @ [Cleanup file_path (os_remove e)])))"

text \<open>The \<^verbatim>\<open>try\<close> with its \<^verbatim>\<open>except Exception\<close> and its \<^verbatim>\<open>finally\<close>.\<close>

definition process_file :: "env \<Rightarrow> string \<Rightarrow> sentry \<Rightarrow> run" where
  "process_file e file_path s =
     (case try_body e file_path (trace s) of
        (err, acts) \<Rightarrow>
          \<lparr>registry = (if file_path \<in> files_being_checked s
                        then files_being_checked s - {file_path}
                        else files_being_checked s),
           actions = acts,
           ending = (case err of None \<Rightarrow> Completed | Some _ \<Rightarrow> Unhandled)\<rparr>)"

definition start :: "string set \<Rightarrow> sentry" where
  "start files = \<lparr>files_being_checked = files, last_size = - 1, stable_count = 0, trace = []\<rparr>"

definition check_and_process_thread :: "env \<Rightarrow> string set \<Rightarrow> string \<Rightarrow> run" where
  "check_and_process_thread e files file_path =
     (case stability_loop (polls e) file_path (start files) of
        (Polling, s) \<Rightarrow>
          \<lparr>registry = files_being_checked s, actions = trace s, ending = Pending\<rparr>
      | (Disappeared, s) \<Rightarrow>
          \<lparr>registry = files_being_checked s, actions = trace s, ending = Abandoned\<rparr>
      | (Crashed err, s) \<Rightarrow>
          \<lparr>registry = files_being_checked s, actions = trace s, ending = Uncaught err\<rparr>
      | (Stable, s) \<Rightarrow> process_file e file_path s)"

subsection \<open>Notions used in the statements\<close>

text \<open>The detector has not left its loop after the poll answers \<open>ps\<close>.\<close>

definition polling_after :: "poll list \<Rightarrow> string \<Rightarrow> string set \<Rightarrow> bool" where
  "polling_after ps file_path files =
     (fst (stability_loop ps file_path (start files)) = Polling)"

definition stable_after :: "poll list \<Rightarrow> string \<Rightarrow> string set \<Rightarrow> bool" where
  "stable_after ps file_path files =
     (fst (stability_loop ps file_path (start files)) = Stable)"

text \<open>The last four sizes of a sequence of reads are equal and greater than zero.\<close>

definition four_equal_reads :: "nat list \<Rightarrow> bool" where
  "four_equal_reads xs =
     (case rev xs of
        d # c # b # a # _ \<Rightarrow> a = b \<and> b = c \<and> c = d \<and> 0 < d
      | _ \<Rightarrow> False)"

text \<open>
  On the reads so far, newest first: how many reads in a row, ending with the newest,
  repeated the read before them with a size that is not zero.
\<close>

fun streak :: "nat list \<Rightarrow> nat" where
  "streak (x # y # ys) = (if x = y \<and> 0 < x then Suc (streak (y # ys)) else 0)"
| "streak _ = 0"

definition newest :: "nat list \<Rightarrow> int" where
  "newest zs = (case zs of [] \<Rightarrow> - 1 | z # _ \<Rightarrow> int z)"

fun is_notify :: "action \<Rightarrow> bool" where
  "is_notify (Notify _ _) = True"
| "is_notify _ = False"

fun is_written :: "action \<Rightarrow> bool" where
  "is_written (Persist _ _ Done) = True"
| "is_written _ = False"

fun is_cleanup :: "action \<Rightarrow> bool" where
  "is_cleanup (Cleanup _ _) = True"
| "is_cleanup _ = False"

subsection \<open>A sample environment\<close>

text \<open>
  The values of \<^verbatim>\<open>os.path.basename\<close>, \<^verbatim>\<open>os.path.splitext\<close> and \<^verbatim>\<open>os.path.join\<close> on
  Windows paths, for a directory that does not end in a separator and a relative file
  name; they instantiate the environment in the examples below.
\<close>

definition sample_basename :: "string \<Rightarrow> string" where
  "sample_basename p = rev (takeWhile (\<lambda>c. c \<noteq> CHR 0x5C \<and> c \<noteq> CHR ''/'') (rev p))"

definition sample_splitext_root :: "string \<Rightarrow> string" where
  "sample_splitext_root n =
     (if CHR ''.'' \<notin> set n then n
      else let stem = rev (tl (dropWhile (\<lambda>c. c \<noteq> CHR ''.'') (rev n)))
           in if list_all (\<lambda>c. c = CHR ''.'') stem then n else stem)"

definition sample_join :: "string \<Rightarrow> string \<Rightarrow> string" where
  "sample_join d f = d @ [CHR 0x5C] @ f"

definition memo_wav :: string where
  "memo_wav = ''D:'' @ [CHR 0x5C] @ ''Projects'' @ [CHR 0x5C] @ ''Idea_sync''
                @ [CHR 0x5C] @ ''memo.wav''"

definition memo_txt :: string where
  "memo_txt = ''D:'' @ [CHR 0x5C] @ ''Projects'' @ [CHR 0x5C] @ ''Formatted-Ideas''
                @ [CHR 0x5C] @ ''memo.txt''"

text \<open>
  The scenario of the specification: the tool transcribes \<open>buy milk\<close>, the formatter
  answers with a bulleted note, and writing, notifying and removing all succeed.
\<close>

definition memo_env :: "poll list \<Rightarrow> env" where
  "memo_env ps =
     \<lparr>polls = ps, whisper = Exited (Some ''buy milk''), ollama = Reply (Some ''- buy milk''),
      write_note = Done, ntfy_post = Done, os_remove = Done,
      basename = sample_basename, splitext_root = sample_splitext_root,
      path_join = sample_join\<rparr>"

text \<open>Six polls: the sizes of the scenario, and one more read of 512.\<close>

definition six_polls :: "poll list" where
  "six_polls = map Size [0, 0, 512, 512, 512, 512]"

section \<open>Properties of the polling loop\<close>

text \<open>
  The loop is compositional in the poll answers: as long as it has not left, it goes on
  from the state it reached; once it has left, later answers are not looked at.
\<close>

lemma loop_append:
  "stability_loop (ps @ qs) p s =
     (case stability_loop ps p s of
        (Polling, s') \<Rightarrow> stability_loop qs p s'
      | r \<Rightarrow> r)"
proof (induction ps p s rule: stability_loop.induct)
  case (1 p s)
  then show ?case by (cases qs) simp_all
next
  case (2 a rest p s)
  then show ?case by (simp split: poll.splits)
qed

lemma polling_count:
  "stability_loop ps p s = (Polling, s') \<Longrightarrow> stable_count s' < max_stable_count"
  by (induction ps p s rule: stability_loop.induct) (auto split: if_splits poll.splits)

lemma polling_afterD:
  assumes "polling_after ps p files"
  obtains s where "stability_loop ps p (start files) = (Polling, s)"
  using assms by (cases "stability_loop ps p (start files)") (simp add: polling_after_def)

text \<open>While the loop is polling a sequence of sizes, its counter is the streak.\<close>

lemma polling_state:
  "stability_loop (map Size xs) p (start files) = (Polling, s) \<Longrightarrow>
     stable_count s = streak (rev xs) \<and> last_size s = newest (rev xs)"
proof (induction xs arbitrary: s rule: rev_induct)
  case Nil
  then show ?case
    by (auto simp: start_def newest_def max_stable_count_def split: if_splits)
next
  case (snoc x xs)
  from snoc.prems obtain s' where
    a: "stability_loop (map Size xs) p (start files) = (Polling, s')"
    and b: "stability_loop [Size x] p s' = (Polling, s)"
    by (auto simp: loop_append split: prod.splits loop_exit.splits)
  note ih = snoc.IH[OF a]
  from b ih show ?case
    by (cases "rev xs") (auto simp: newest_def split: if_splits)
qed

lemma streak_three: "3 \<le> streak zs \<longleftrightarrow> four_equal_reads (rev zs)"
  by (simp add: four_equal_reads_def split: list.splits)

lemma one_more_read:
  assumes "stability_loop (map Size xs) p (start files) = (Polling, s)"
  shows "stability_loop (map Size (xs @ [x])) p (start files) =
           ((if four_equal_reads (xs @ [x]) then Stable else Polling),
            s\<lparr>stable_count := streak (x # rev xs), last_size := int x,
              trace := trace s @ [Slept]\<rparr>)"
proof -
  have c: "stable_count s < max_stable_count"
    using assms by (rule polling_count)
  have st: "stable_count s = streak (rev xs)" "last_size s = newest (rev xs)"
    using polling_state[OF assms] by simp_all
  have k: "(if int x = last_size s \<and> 0 < x then stable_count s + 1 else 0)
             = streak (x # rev xs)"
    using st by (cases "rev xs") (auto simp: newest_def)
  have f: "four_equal_reads (xs @ [x]) \<longleftrightarrow> \<not> streak (x # rev xs) < max_stable_count"
    using streak_three[of "x # rev xs"] by (auto simp: max_stable_count_def)
  show ?thesis
    using c by (simp add: loop_append assms f k[symmetric])
qed

lemma streak_deviation:
  "xs = [] \<or> x \<noteq> last xs \<or> x = 0 \<Longrightarrow> streak (x # rev xs) = 0"
  by (cases xs rule: rev_cases) auto

text \<open>Sleeping is no stage, and the loop does nothing but sleep.\<close>

lemma stages_sleeps [simp]: "stages (replicate n Slept @ acts) = stages acts"
  by (induction n) (simp_all add: stages_def)

lemma stages_only_sleeps [simp]: "stages (replicate n Slept) = []"
  using stages_sleeps[of n "[]"] by (simp add: stages_def)

lemma no_notify_sleeps [simp]: "\<not> list_ex is_notify (replicate n Slept)"
  by (induction n) simp_all

lemma no_written_sleeps [simp]: "\<not> list_ex is_written (replicate n Slept)"
  by (induction n) simp_all

lemma no_cleanup_sleeps [simp]: "\<not> list_ex is_cleanup (replicate n Slept)"
  by (induction n) simp_all

text \<open>A locked file costs a sleep and changes nothing else.\<close>

lemma loop_locked:
  "stable_count s < max_stable_count \<Longrightarrow>
     stability_loop (replicate n Locked @ rest) p s
       = stability_loop rest p (s\<lparr>trace := trace s @ replicate n Slept\<rparr>)"
proof (induction n arbitrary: s)
  case 0
  then show ?case by simp
next
  case (Suc n)
  then show ?case by (simp add: replicate_app_Cons_same)
qed

text \<open>Reads of size zero and locked polls never end the loop.\<close>

lemma loop_zero:
  "stable_count s < max_stable_count \<Longrightarrow> set ps \<subseteq> {Size 0, Locked} \<Longrightarrow>
     fst (stability_loop ps p s) = Polling"
proof (induction ps arbitrary: s)
  case Nil
  then show ?case by simp
next
  case (Cons q ps)
  then show ?case by (auto simp: max_stable_count_def)
qed

text \<open>What each way of leaving the loop does to the trace and to the registry.\<close>

lemma loop_trace:
  "\<exists>n. trace (snd (stability_loop ps p s)) = trace s @ replicate n Slept"
proof (induction ps arbitrary: s)
  case Nil
  show ?case by (rule exI[of _ 0]) simp
next
  case (Cons q ps)
  have step: "\<exists>n. trace (snd (stability_loop ps p s')) = trace s @ replicate n Slept"
    if "trace s' = trace s @ [Slept]" for s' :: sentry
  proof -
    from Cons[of s'] obtain n where
      "trace (snd (stability_loop ps p s')) = trace s' @ replicate n Slept" ..
    with that have "trace (snd (stability_loop ps p s')) = trace s @ replicate (Suc n) Slept"
      by (simp add: replicate_app_Cons_same)
    then show ?thesis ..
  qed
  have stay: "\<exists>n. trace s = trace s @ replicate n Slept"
    by (rule exI[of _ 0]) simp
  show ?case
    by (cases q) (simp_all add: step stay)
qed

lemma loop_keeps_registry:
  "stability_loop ps p s = (ex, s') \<Longrightarrow> ex = Polling \<or> ex = Stable \<Longrightarrow>
     files_being_checked s' = files_being_checked s"
proof (induction ps p s rule: stability_loop.induct)
  case (1 p s)
  then show ?case by (simp split: if_splits)
next
  case (2 q rest p s)
  show ?case
  proof (cases "stable_count s < max_stable_count")
    case True
    with "2.prems" "2.IH" show ?thesis
      by (cases q) (simp_all split: if_splits)
  next
    case False
    with "2.prems" show ?thesis by simp
  qed
qed



lemma loop_polling_trace:
  "stability_loop ps p s = (Polling, s') \<Longrightarrow>
     trace s' = trace s @ replicate (length ps) Slept"
proof (induction ps arbitrary: s)
  case Nil
  then show ?case by (auto split: if_splits)
next
  case (Cons q ps)
  then show ?case
    by (cases q) (auto simp: replicate_app_Cons_same split: if_splits)
qed

section \<open>Properties of the worker thread\<close>

lemma start_simps [simp]:
  "files_being_checked (start files) = files" "trace (start files) = []"
  "stable_count (start files) = 0" "last_size (start files) = - 1"
  by (simp_all add: start_def)

text \<open>The stages only append to the trace they are given.\<close>

lemma note_stages_acts:
  "note_stages e fn t acts
     = (fst (note_stages e fn t []), acts @ snd (note_stages e fn t []))"
  by (simp add: note_stages_def Let_def split: sum.splits outcome.splits)

lemma try_body_acts:
  "try_body e p acts = (fst (try_body e p []), acts @ snd (try_body e p []))"
proof (cases "transcribe_audio (whisper e)")
  case (Inl err)
  then show ?thesis by (simp add: try_body_def)
next
  case (Inr raw)
  show ?thesis
  proof (cases "truthy raw")
    case False
    with Inr show ?thesis by (simp add: try_body_def)
  next
    case True
    obtain r a where n: "note_stages e (basename e p) (the raw) [] = (r, a)"
      by (cases "note_stages e (basename e p) (the raw) []")
    have m: "note_stages e (basename e p) (the raw) (acts @ [Transcribe p])
               = (r, (acts @ [Transcribe p]) @ a)"
      using note_stages_acts[of e "basename e p" "the raw" "acts @ [Transcribe p]"] n
      by simp
    have m0: "note_stages e (basename e p) (the raw) [Transcribe p]
               = (r, [Transcribe p] @ a)"
      using note_stages_acts[of e "basename e p" "the raw" "[Transcribe p]"] n
      by simp
    from Inr True m m0 show ?thesis
      by (cases r) (simp_all add: try_body_def)
  qed
qed

lemma process_file_result:
  "process_file e p s =
     \<lparr>registry = files_being_checked s - {p},
      actions = trace s @ snd (try_body e p []),
      ending = (case fst (try_body e p []) of None \<Rightarrow> Completed | Some _ \<Rightarrow> Unhandled)\<rparr>"
proof -
  have "try_body e p (trace s) = (fst (try_body e p []), trace s @ snd (try_body e p []))"
    by (rule try_body_acts)
  then show ?thesis
    by (auto simp: process_file_def)
qed

text \<open>The run of the thread, by the way its loop ends.\<close>

lemma thread_stable:
  assumes "stable_after (polls e) p files"
  obtains n where
    "check_and_process_thread e files p =
       \<lparr>registry = files - {p},
        actions = replicate n Slept @ snd (try_body e p []),
        ending = (case fst (try_body e p []) of None \<Rightarrow> Completed | Some _ \<Rightarrow> Unhandled)\<rparr>"
proof -
  from assms obtain s where s: "stability_loop (polls e) p (start files) = (Stable, s)"
    by (cases "stability_loop (polls e) p (start files)") (simp add: stable_after_def)
  have f: "files_being_checked s = files"
    using loop_keeps_registry[OF s] by simp
  from loop_trace[of "polls e" p "start files"] s obtain n where
    t: "trace s = replicate n Slept" by auto
  have "check_and_process_thread e files p =
       \<lparr>registry = files - {p},
        actions = replicate n Slept @ snd (try_body e p []),
        ending = (case fst (try_body e p []) of None \<Rightarrow> Completed | Some _ \<Rightarrow> Unhandled)\<rparr>"
    by (simp add: check_and_process_thread_def s process_file_result f t)
  then show ?thesis ..
qed

lemma thread_polling:
  assumes "polling_after (polls e) p files"
  shows "check_and_process_thread e files p =
           \<lparr>registry = files, actions = replicate (length (polls e)) Slept,
            ending = Pending\<rparr>"
proof -
  from assms obtain s where s: "stability_loop (polls e) p (start files) = (Polling, s)"
    by (rule polling_afterD)
  have f: "files_being_checked s = files"
    using loop_keeps_registry[OF s] by simp
  have t: "trace s = replicate (length (polls e)) Slept"
    using loop_polling_trace[OF s] by simp
  show ?thesis
    by (simp add: check_and_process_thread_def s f t)
qed

lemma thread_missing:
  assumes "polling_after pre p files"
  shows "check_and_process_thread (e\<lparr>polls := pre @ Missing # rest\<rparr>) files p =
           \<lparr>registry = files - {p}, actions = replicate (length pre) Slept,
            ending = (if p \<in> files then Abandoned else Uncaught KeyError)\<rparr>"
proof -
  from assms obtain s where s: "stability_loop pre p (start files) = (Polling, s)"
    by (rule polling_afterD)
  have f: "files_being_checked s = files"
    using loop_keeps_registry[OF s] by simp
  have t: "trace s = replicate (length pre) Slept"
    using loop_polling_trace[OF s] by simp
  have c: "stable_count s < max_stable_count"
    using s by (rule polling_count)
  show ?thesis
    using c by (simp add: check_and_process_thread_def loop_append s f t)
qed


lemma thread_not_stable:
  assumes "\<not> stable_after (polls e) p files"
  shows "\<exists>n. actions (check_and_process_thread e files p) = replicate n Slept"
proof (cases "stability_loop (polls e) p (start files)")
  case (Pair ex s)
  from loop_trace[of "polls e" p "start files"] Pair obtain n where
    t: "trace s = replicate n Slept" by auto
  from assms Pair have "ex \<noteq> Stable" by (simp add: stable_after_def)
  with Pair t show ?thesis
    by (cases ex) (simp_all add: check_and_process_thread_def)
qed

text \<open>
  Admission, one call after the other: a path that was admitted is refused until it is
  released.
\<close>

lemma admit_once:
  assumes "start_stability_check files p = (files', Some q)"
  shows "q = p \<and> p \<notin> files \<and> files' = insert p files
         \<and> start_stability_check files' p = (files', None)"
  using assms by (auto simp: start_stability_check_def split: if_splits)

section \<open>The sample environment, evaluated\<close>

lemma memo_name:
  "sample_join FINAL_OUTPUT_FOLDER (sample_splitext_root (sample_basename memo_wav) @ ''.txt'')
     = memo_txt"
  by (simp add: sample_join_def FINAL_OUTPUT_FOLDER_def sample_splitext_root_def
        sample_basename_def memo_wav_def memo_txt_def)

lemma name2: "sample_splitext_root (sample_basename memo_wav) = ''memo''"
  by (simp add: sample_splitext_root_def sample_basename_def memo_wav_def)

lemma six_stable: "stable_after six_polls memo_wav {memo_wav}"
  by (simp add: stable_after_def six_polls_def start_def max_stable_count_def)

lemma memo_is_audio: "start_stability_check {} memo_wav = ({memo_wav}, Some memo_wav)"
  by (simp add: start_stability_check_def endswith_def audio_suffixes_def memo_wav_def)

section \<open>The claims\<close>

text \<open>
  C1, as the code has it. The counter counts stable checks, that is polls whose size
  equals the size of the poll before and is not zero, so the loop is left exactly when
  the last four sizes read are equal and greater than zero: while the detector is still
  polling after the sizes \<open>xs\<close>, one more read \<open>x\<close> makes the file Stable if and only if
  the last four sizes of \<open>xs @ [x]\<close> are equal and positive, and a read that differs from
  the one before it, or is zero, leaves the counter at 0. For the sizes
  0, 0, 512, 512, 512 the detector is still polling after the fifth poll, with the counter
  at 2; a sixth read of 512 makes the file Stable.
\<close>

theorem stable_after_four_equal_reads:
  "(polling_after (map Size xs) p files \<longrightarrow>
      fst (stability_loop (map Size (xs @ [x])) p (start files))
        = (if four_equal_reads (xs @ [x]) then Stable else Polling)
      \<and> (xs = [] \<or> x \<noteq> last xs \<or> x = 0 \<longrightarrow>
           stable_count (snd (stability_loop (map Size (xs @ [x])) p (start files))) = 0))
   \<and> stability_loop (map Size [0, 0, 512, 512, 512]) p (start files)
       = (Polling, \<lparr>files_being_checked = files, last_size = 512, stable_count = 2,
                    trace = [Slept, Slept, Slept, Slept, Slept]\<rparr>)
   \<and> stability_loop (map Size [0, 0, 512, 512, 512, 512]) p (start files)
       = (Stable, \<lparr>files_being_checked = files, last_size = 512, stable_count = 3,
                   trace = [Slept, Slept, Slept, Slept, Slept, Slept]\<rparr>)"
proof (intro conjI impI)
  assume "polling_after (map Size xs) p files"
  then obtain s where s: "stability_loop (map Size xs) p (start files) = (Polling, s)"
    by (rule polling_afterD)
  show "fst (stability_loop (map Size (xs @ [x])) p (start files))
          = (if four_equal_reads (xs @ [x]) then Stable else Polling)"
    by (simp only: one_more_read[OF s] fst_conv)
  assume "xs = [] \<or> x \<noteq> last xs \<or> x = 0"
  then have "streak (x # rev xs) = 0"
    by (rule streak_deviation)
  then show "stable_count (snd (stability_loop (map Size (xs @ [x])) p (start files))) = 0"
    unfolding one_more_read[OF s] by simp
next
  show "stability_loop (map Size [0, 0, 512, 512, 512]) p (start files)
       = (Polling, \<lparr>files_being_checked = files, last_size = 512, stable_count = 2,
                    trace = [Slept, Slept, Slept, Slept, Slept]\<rparr>)"
    by (simp add: start_def max_stable_count_def)
next
  show "stability_loop (map Size [0, 0, 512, 512, 512, 512]) p (start files)
       = (Stable, \<lparr>files_being_checked = files, last_size = 512, stable_count = 3,
                   trace = [Slept, Slept, Slept, Slept, Slept, Slept]\<rparr>)"
    by (simp add: start_def max_stable_count_def)
qed

theorem stable_after_four_equal_reads_witness:
  "polling_after (map Size [0, 0, 512, 512, 512]) memo_wav {memo_wav}
   \<and> four_equal_reads ([0, 0, 512, 512, 512] @ [512])
   \<and> fst (stability_loop (map Size ([0, 0, 512, 512, 512] @ [512])) memo_wav
            (start {memo_wav})) = Stable
   \<and> fst (stability_loop (map Size ([0, 0, 512, 512, 512] @ [100])) memo_wav
            (start {memo_wav})) = Polling
   \<and> stable_count (snd (stability_loop (map Size ([0, 0, 512, 512, 512] @ [100])) memo_wav
            (start {memo_wav}))) = 0"
proof -
  have h: "polling_after (map Size [0, 0, 512, 512, 512]) memo_wav {memo_wav}"
    by (simp add: polling_after_def start_def max_stable_count_def)
  have f: "four_equal_reads ([0, 0, 512, 512, 512] @ [512])"
    by (simp add: four_equal_reads_def)
  have g: "\<not> four_equal_reads ([0, 0, 512, 512, 512] @ [100])"
    by (simp add: four_equal_reads_def)
  have d: "(100::nat) \<noteq> last [0, 0, 512, 512, 512]"
    by simp
  from stable_after_four_equal_reads[of "[0, 0, 512, 512, 512]" memo_wav "{memo_wav}" 512]
    stable_after_four_equal_reads[of "[0, 0, 512, 512, 512]" memo_wav "{memo_wav}" 100]
    h f g d
  show ?thesis by simp
qed

text \<open>
  C1 as stated fails: after the polls 0, 0, 512, 512, 512 the last three sizes are equal
  and positive, yet the worker is still in its loop (the run is pending, nothing but five
  sleeps has happened).
\<close>

theorem five_polls_not_stable:
  "ending (check_and_process_thread (memo_env (map Size [0, 0, 512, 512, 512]))
             {memo_wav} memo_wav) = Pending
   \<and> actions (check_and_process_thread (memo_env (map Size [0, 0, 512, 512, 512]))
             {memo_wav} memo_wav) = [Slept, Slept, Slept, Slept, Slept]
   \<and> fst (stability_loop (map Size [0, 0, 512, 512, 512]) memo_wav (start {memo_wav}))
       \<noteq> Stable"
  by (simp add: check_and_process_thread_def memo_env_def start_def max_stable_count_def)

text \<open>
  C2, as the code has it. The write of the note is inside the outer \<^verbatim>\<open>try\<close> and has no
  handler of its own, so when it raises, control goes to \<^verbatim>\<open>except Exception\<close>: neither
  Notify nor Cleanup runs, the source audio file is not removed, the run ends in the
  handler for unhandled errors, and the \<^verbatim>\<open>finally\<close> block still releases the registry
  entry.
\<close>

theorem persist_failure_skips_cleanup:
  assumes "stable_after (polls e) p files"
    and "transcribe_audio (whisper e) = Inr (Some t)" and "t \<noteq> []"
    and "format_text (ollama e) t = Inr note"
    and "write_note e = Raises"
  shows "stages (actions (check_and_process_thread e files p))
           = [Transcribe p, Format t,
              Persist (path_join e FINAL_OUTPUT_FOLDER
                         (splitext_root e (basename e p) @ ''.txt'')) note Raises]
         \<and> \<not> list_ex is_notify (actions (check_and_process_thread e files p))
         \<and> \<not> list_ex is_cleanup (actions (check_and_process_thread e files p))
         \<and> ending (check_and_process_thread e files p) = Unhandled
         \<and> registry (check_and_process_thread e files p) = files - {p}"
proof -
  have b: "try_body e p [] =
             (Some Exception,
              [Transcribe p, Format t,
               Persist (path_join e FINAL_OUTPUT_FOLDER
                          (splitext_root e (basename e p) @ ''.txt'')) note Raises])"
    using assms(2-5) by (simp add: try_body_def note_stages_def)
  from thread_stable[OF assms(1)] obtain n where
    "check_and_process_thread e files p =
       \<lparr>registry = files - {p},
        actions = replicate n Slept @ snd (try_body e p []),
        ending = (case fst (try_body e p []) of None \<Rightarrow> Completed | Some _ \<Rightarrow> Unhandled)\<rparr>" .
  then show ?thesis
    by (simp add: b stages_def)
qed

text \<open>The scenario of the specification, with a write that raises.\<close>

theorem persist_failure_skips_cleanup_witness:
  "stable_after (polls ((memo_env six_polls)\<lparr>write_note := Raises\<rparr>)) memo_wav {memo_wav}
   \<and> stages (actions (check_and_process_thread ((memo_env six_polls)\<lparr>write_note := Raises\<rparr>)
                 {memo_wav} memo_wav))
       = [Transcribe memo_wav, Format ''buy milk'', Persist memo_txt ''- buy milk'' Raises]
   \<and> ending (check_and_process_thread ((memo_env six_polls)\<lparr>write_note := Raises\<rparr>)
                 {memo_wav} memo_wav) = Unhandled
   \<and> registry (check_and_process_thread ((memo_env six_polls)\<lparr>write_note := Raises\<rparr>)
                 {memo_wav} memo_wav) = {}"
proof -
  let ?e = "(memo_env six_polls)\<lparr>write_note := Raises\<rparr>"
  have h1: "stable_after (polls ?e) memo_wav {memo_wav}"
    by (simp add: memo_env_def six_stable)
  have h2: "transcribe_audio (whisper ?e) = Inr (Some ''buy milk'')"
    by (simp add: memo_env_def transcribe_audio_def)
  have h3: "''buy milk'' \<noteq> []" by simp
  have h4: "format_text (ollama ?e) ''buy milk'' = Inr ''- buy milk''"
    by (simp add: memo_env_def format_text_def)
  have h5: "write_note ?e = Raises" by simp
  have n: "path_join ?e FINAL_OUTPUT_FOLDER (splitext_root ?e (basename ?e memo_wav) @ ''.txt'')
             = memo_txt"
    by (simp add: memo_env_def memo_name)
  from persist_failure_skips_cleanup[OF h1 h2 h3 h4 h5] h1 show ?thesis
    by (simp only: n) simp
qed

text \<open>
  C2 as stated fails: in the scenario of the specification with a write that raises, the
  run ends after the failed write, and \<^verbatim>\<open>os.remove\<close> is never called on the source file.
\<close>

theorem persist_failure_leaves_source:
  "actions (check_and_process_thread ((memo_env six_polls)\<lparr>write_note := Raises\<rparr>)
              {memo_wav} memo_wav)
     = [Slept, Slept, Slept, Slept, Slept, Slept,
        Transcribe memo_wav, Format ''buy milk'', Persist memo_txt ''- buy milk'' Raises]
   \<and> \<not> list_ex is_cleanup
         (actions (check_and_process_thread ((memo_env six_polls)\<lparr>write_note := Raises\<rparr>)
                     {memo_wav} memo_wav))"
  by (simp add: check_and_process_thread_def memo_env_def six_polls_def start_def
        max_stable_count_def process_file_def try_body_def note_stages_def
        transcribe_audio_def format_text_def memo_name)

text \<open>
  C3. After any polls that left the detector polling, a poll that reads size zero leaves
  the counter at 0 and the detector polling; and however many polls follow that read zero
  (or find the file locked), the file is not declared Stable.
\<close>

theorem zero_size_never_stable:
  assumes "polling_after pre p files"
  shows "polling_after (pre @ [Size 0]) p files
         \<and> stable_count (snd (stability_loop (pre @ [Size 0]) p (start files))) = 0
         \<and> (set zs \<subseteq> {Size 0, Locked} \<longrightarrow> polling_after (pre @ zs) p files)"
proof -
  from assms obtain s where s: "stability_loop pre p (start files) = (Polling, s)"
    by (rule polling_afterD)
  have c: "stable_count s < max_stable_count"
    using s by (rule polling_count)
  have one: "stability_loop (pre @ [Size 0]) p (start files)
               = (Polling, s\<lparr>stable_count := 0, last_size := 0, trace := trace s @ [Slept]\<rparr>)"
    using c by (simp add: loop_append s max_stable_count_def)
  have many: "polling_after (pre @ zs) p files" if "set zs \<subseteq> {Size 0, Locked}"
    using loop_zero[OF c that, of p] by (simp add: polling_after_def loop_append s)
  from one many show ?thesis
    by (simp add: polling_after_def)
qed

text \<open>Three reads of 512 bring the counter to 2; a read of zero resets it, and zeros never make the file Stable.\<close>

theorem zero_size_never_stable_witness:
  "polling_after (map Size [512, 512, 512]) memo_wav {memo_wav}
   \<and> polling_after (map Size [512, 512, 512] @ [Size 0]) memo_wav {memo_wav}
   \<and> stable_count (snd (stability_loop (map Size [512, 512, 512] @ [Size 0]) memo_wav
                           (start {memo_wav}))) = 0
   \<and> polling_after (map Size [512, 512, 512] @ [Size 0, Locked, Size 0, Size 0, Size 0])
        memo_wav {memo_wav}"
proof -
  have h: "polling_after (map Size [512, 512, 512]) memo_wav {memo_wav}"
    by (simp add: polling_after_def start_def max_stable_count_def)
  have z: "set [Size 0, Locked, Size 0, Size 0, Size 0] \<subseteq> {Size 0, Locked}"
    by simp
  from zero_size_never_stable[OF h, of "[Size 0, Locked, Size 0, Size 0, Size 0]"] h z
  show ?thesis by blast
qed

text \<open>
  C4. At any point of the polling, \<open>n\<close> access errors in a row leave the last size, the
  counter and the registry as they were and cost \<open>n\<close> sleeps: the loop goes on from the
  same state, whatever \<open>n\<close> is, and a run that sees nothing but such errors after that
  point is still pending, not abandoned.
\<close>

theorem locked_keeps_state:
  assumes "stability_loop pre p (start files) = (Polling, s)"
  shows "stability_loop (pre @ replicate n Locked) p (start files)
           = (Polling, s\<lparr>trace := trace s @ replicate n Slept\<rparr>)
         \<and> stability_loop (pre @ replicate n Locked @ rest) p (start files)
           = stability_loop rest p (s\<lparr>trace := trace s @ replicate n Slept\<rparr>)
         \<and> ending (check_and_process_thread (e\<lparr>polls := pre @ replicate n Locked\<rparr>) files p)
           = Pending"
proof -
  have c: "stable_count s < max_stable_count"
    using assms by (rule polling_count)
  have a: "stability_loop (pre @ replicate n Locked @ qs) p (start files)
           = stability_loop qs p (s\<lparr>trace := trace s @ replicate n Slept\<rparr>)" for qs
    using loop_locked[OF c, of n qs p] by (simp add: loop_append assms)
  have b: "stability_loop (pre @ replicate n Locked) p (start files)
           = (Polling, s\<lparr>trace := trace s @ replicate n Slept\<rparr>)"
    using a[of "[]"] c by simp
  from a[of rest] b show ?thesis
    by (simp add: check_and_process_thread_def)
qed

text \<open>Four locked polls after three reads of 512: the counter stays at 2, and the next read of 512 makes the file Stable.\<close>

theorem locked_keeps_state_witness:
  "stability_loop (map Size [512, 512, 512]) memo_wav (start {memo_wav})
     = (Polling, \<lparr>files_being_checked = {memo_wav}, last_size = 512, stable_count = 2,
                  trace = [Slept, Slept, Slept]\<rparr>)
   \<and> stability_loop (map Size [512, 512, 512] @ replicate 4 Locked) memo_wav (start {memo_wav})
     = (Polling, \<lparr>files_being_checked = {memo_wav}, last_size = 512, stable_count = 2,
                  trace = [Slept, Slept, Slept, Slept, Slept, Slept, Slept]\<rparr>)
   \<and> stability_loop (map Size [512, 512, 512] @ replicate 4 Locked @ [Size 512]) memo_wav
        (start {memo_wav})
     = (Stable, \<lparr>files_being_checked = {memo_wav}, last_size = 512, stable_count = 3,
                 trace = [Slept, Slept, Slept, Slept, Slept, Slept, Slept, Slept]\<rparr>)
   \<and> ending (check_and_process_thread
               ((memo_env [])\<lparr>polls := map Size [512, 512, 512] @ replicate 4 Locked\<rparr>)
               {memo_wav} memo_wav) = Pending"
proof -
  let ?s = "\<lparr>files_being_checked = {memo_wav}, last_size = 512, stable_count = 2,
             trace = [Slept, Slept, Slept]\<rparr>"
  have h: "stability_loop (map Size [512, 512, 512]) memo_wav (start {memo_wav})
             = (Polling, ?s)"
    by (simp add: start_def max_stable_count_def)
  have r: "replicate 4 Slept = [Slept, Slept, Slept, Slept]"
    by (simp add: numeral_eq_Suc)
  have k: "stability_loop [Size 512] memo_wav
             (?s\<lparr>trace := trace ?s @ replicate 4 Slept\<rparr>)
           = (Stable, \<lparr>files_being_checked = {memo_wav}, last_size = 512, stable_count = 3,
                 trace = [Slept, Slept, Slept, Slept, Slept, Slept, Slept, Slept]\<rparr>)"
    by (simp add: max_stable_count_def r)
  from locked_keeps_state[OF h, where n = 4 and rest = "[Size 512]" and e = "memo_env []"] h k show ?thesis
    by (simp add: r)
qed

text \<open>
  C5. If the file is missing at a poll while the detector is polling, the run ends at
  that poll: the path is not in the registry afterwards, no stage was executed (the trace
  holds only the sleeps of the earlier polls), and whatever polls would follow are
  not looked at. For a path that is in the registry, as it is for every worker that
  \<open>start_stability_check\<close> starts, the run is abandoned by the early return.
\<close>

theorem disappeared_abandons:
  assumes "polling_after pre p files"
  shows "registry (check_and_process_thread (e\<lparr>polls := pre @ Missing # rest\<rparr>) files p)
           = files - {p}
         \<and> actions (check_and_process_thread (e\<lparr>polls := pre @ Missing # rest\<rparr>) files p)
           = replicate (length pre) Slept
         \<and> stages (actions (check_and_process_thread (e\<lparr>polls := pre @ Missing # rest\<rparr>)
                     files p)) = []
         \<and> ending (check_and_process_thread (e\<lparr>polls := pre @ Missing # rest\<rparr>) files p)
           = (if p \<in> files then Abandoned else Uncaught KeyError)"
  by (simp add: thread_missing[OF assms])

text \<open>The file disappears at the fourth poll.\<close>

theorem disappeared_abandons_witness:
  "polling_after [Size 0, Size 512, Locked] memo_wav {memo_wav}
   \<and> registry (check_and_process_thread
        ((memo_env [])\<lparr>polls := [Size 0, Size 512, Locked] @ Missing # [Size 512]\<rparr>)
        {memo_wav} memo_wav) = {}
   \<and> actions (check_and_process_thread
        ((memo_env [])\<lparr>polls := [Size 0, Size 512, Locked] @ Missing # [Size 512]\<rparr>)
        {memo_wav} memo_wav) = [Slept, Slept, Slept]
   \<and> ending (check_and_process_thread
        ((memo_env [])\<lparr>polls := [Size 0, Size 512, Locked] @ Missing # [Size 512]\<rparr>)
        {memo_wav} memo_wav) = Abandoned"
proof -
  have h: "polling_after [Size 0, Size 512, Locked] memo_wav {memo_wav}"
    by (simp add: polling_after_def start_def max_stable_count_def)
  have r: "replicate (length [Size 0, Size 512, Locked]) Slept = [Slept, Slept, Slept]"
    by simp
  from disappeared_abandons[OF h, where e = "memo_env []" and rest = "[Size 512]"] h show ?thesis
    by (simp only: r) simp
qed

text \<open>
  C6, as the code has it. In a run of a Stable file, if \<open>transcribe_audio\<close> returns no
  text (Whisper exits with an error status, leaves no output file, or the text is empty),
  the only stages executed are Transcribe and Cleanup: Format, Persist and Notify are
  skipped, \<^verbatim>\<open>os.remove\<close> is called on the source file, and the registry entry is released.
  A tool failure that makes \<open>transcribe_audio\<close> raise (anything but
  \<^verbatim>\<open>CalledProcessError\<close>, such as a missing executable) ends the run in the handler for
  unhandled errors: no stage follows Transcribe, the source file is not removed, and the
  registry entry is still released.
\<close>

theorem transcribe_outcome_decides_cleanup:
  assumes "stable_after (polls e) p files"
  shows "(transcribe_audio (whisper e) = Inr raw_text \<and> \<not> truthy raw_text \<longrightarrow>
            stages (actions (check_and_process_thread e files p))
              = [Transcribe p, Cleanup p (os_remove e)]
            \<and> ending (check_and_process_thread e files p) = Completed
            \<and> registry (check_and_process_thread e files p) = files - {p})
         \<and> (transcribe_audio (whisper e) = Inl err \<longrightarrow>
            stages (actions (check_and_process_thread e files p)) = [Transcribe p]
            \<and> ending (check_and_process_thread e files p) = Unhandled
            \<and> registry (check_and_process_thread e files p) = files - {p})
         \<and> ((\<exists>raw. transcribe_audio (whisper e) = Inr raw \<and> \<not> truthy raw) \<longleftrightarrow>
              whisper e \<in> {CalledProcessError, Exited None, Exited (Some [])})
         \<and> ((\<exists>err'. transcribe_audio (whisper e) = Inl err') \<longleftrightarrow> whisper e = WhisperFault)"
proof -
  from thread_stable[OF assms] obtain n where
    r: "check_and_process_thread e files p =
       \<lparr>registry = files - {p},
        actions = replicate n Slept @ snd (try_body e p []),
        ending = (case fst (try_body e p []) of None \<Rightarrow> Completed | Some _ \<Rightarrow> Unhandled)\<rparr>" .
  have a: "stages (actions (check_and_process_thread e files p))
              = [Transcribe p, Cleanup p (os_remove e)]
            \<and> ending (check_and_process_thread e files p) = Completed
            \<and> registry (check_and_process_thread e files p) = files - {p}"
    if "transcribe_audio (whisper e) = Inr raw_text" "\<not> truthy raw_text"
  proof -
    have "try_body e p [] = (None, [Transcribe p, Cleanup p (os_remove e)])"
      using that by (simp add: try_body_def)
    then show ?thesis by (simp add: r stages_def)
  qed
  have b: "stages (actions (check_and_process_thread e files p)) = [Transcribe p]
            \<and> ending (check_and_process_thread e files p) = Unhandled
            \<and> registry (check_and_process_thread e files p) = files - {p}"
    if "transcribe_audio (whisper e) = Inl err"
  proof -
    have "try_body e p [] = (Some err, [Transcribe p])"
      using that by (simp add: try_body_def)
    then show ?thesis by (simp add: r stages_def)
  qed
  have c: "(\<exists>raw. transcribe_audio (whisper e) = Inr raw \<and> \<not> truthy raw) \<longleftrightarrow>
              whisper e \<in> {CalledProcessError, Exited None, Exited (Some [])}"
    by (cases "whisper e") (auto simp: transcribe_audio_def split: option.splits)
  have d: "(\<exists>err'. transcribe_audio (whisper e) = Inl err') \<longleftrightarrow> whisper e = WhisperFault"
    by (cases "whisper e") (auto simp: transcribe_audio_def split: option.splits)
  from a b c d show ?thesis by blast
qed

text \<open>
  The scenario of the specification with a Whisper run that exits with an error, with an
  empty transcription, and with a Whisper executable that cannot be started.
\<close>

theorem transcribe_outcome_decides_cleanup_witness:
  "stable_after (polls ((memo_env six_polls)\<lparr>whisper := CalledProcessError\<rparr>))
     memo_wav {memo_wav}
   \<and> stages (actions (check_and_process_thread
                ((memo_env six_polls)\<lparr>whisper := CalledProcessError\<rparr>) {memo_wav} memo_wav))
       = [Transcribe memo_wav, Cleanup memo_wav Done]
   \<and> ending (check_and_process_thread
                ((memo_env six_polls)\<lparr>whisper := CalledProcessError\<rparr>) {memo_wav} memo_wav)
       = Completed
   \<and> registry (check_and_process_thread
                ((memo_env six_polls)\<lparr>whisper := CalledProcessError\<rparr>) {memo_wav} memo_wav)
       = {}
   \<and> stages (actions (check_and_process_thread
                ((memo_env six_polls)\<lparr>whisper := Exited (Some [])\<rparr>) {memo_wav} memo_wav))
       = [Transcribe memo_wav, Cleanup memo_wav Done]
   \<and> stages (actions (check_and_process_thread
                ((memo_env six_polls)\<lparr>whisper := WhisperFault\<rparr>) {memo_wav} memo_wav))
       = [Transcribe memo_wav]
   \<and> ending (check_and_process_thread
                ((memo_env six_polls)\<lparr>whisper := WhisperFault\<rparr>) {memo_wav} memo_wav)
       = Unhandled"
proof -
  let ?e = "(memo_env six_polls)\<lparr>whisper := CalledProcessError\<rparr>"
  let ?f = "(memo_env six_polls)\<lparr>whisper := WhisperFault\<rparr>"
  let ?g = "(memo_env six_polls)\<lparr>whisper := Exited (Some [])\<rparr>"
  have h1: "stable_after (polls ?e) memo_wav {memo_wav}"
    by (simp add: memo_env_def six_stable)
  have h2: "transcribe_audio (whisper ?e) = Inr None \<and> \<not> truthy None"
    by (simp add: transcribe_audio_def)
  have o: "os_remove ?e = Done" by (simp add: memo_env_def)
  have k1: "stable_after (polls ?f) memo_wav {memo_wav}"
    by (simp add: memo_env_def six_stable)
  have k2: "transcribe_audio (whisper ?f) = Inl Exception"
    by (simp add: transcribe_audio_def)
  have g1: "stable_after (polls ?g) memo_wav {memo_wav}"
    by (simp add: memo_env_def six_stable)
  have g2: "transcribe_audio (whisper ?g) = Inr (Some []) \<and> \<not> truthy (Some [])"
    by (simp add: transcribe_audio_def)
  have og: "os_remove ?g = Done" by (simp add: memo_env_def)
  from transcribe_outcome_decides_cleanup[OF h1, where raw_text = None] h2
  have a: "stages (actions (check_and_process_thread ?e {memo_wav} memo_wav))
              = [Transcribe memo_wav, Cleanup memo_wav (os_remove ?e)]
            \<and> ending (check_and_process_thread ?e {memo_wav} memo_wav) = Completed
            \<and> registry (check_and_process_thread ?e {memo_wav} memo_wav) = {memo_wav} - {memo_wav}"
    by blast
  from transcribe_outcome_decides_cleanup[OF g1, where raw_text = "Some []"] g2
  have c: "stages (actions (check_and_process_thread ?g {memo_wav} memo_wav))
              = [Transcribe memo_wav, Cleanup memo_wav (os_remove ?g)]"
    by blast
  from transcribe_outcome_decides_cleanup[OF k1, where err = Exception] k2
  have b: "stages (actions (check_and_process_thread ?f {memo_wav} memo_wav)) = [Transcribe memo_wav]
            \<and> ending (check_and_process_thread ?f {memo_wav} memo_wav) = Unhandled"
    by blast
  from a b c h1 show ?thesis
    by (simp only: o og) simp
qed

text \<open>
  C6 as stated fails for a tool failure that is not a \<^verbatim>\<open>CalledProcessError\<close>: the run ends
  right after Transcribe, and \<^verbatim>\<open>os.remove\<close> is never called on the source file.
\<close>

theorem whisper_fault_leaves_source:
  "actions (check_and_process_thread ((memo_env six_polls)\<lparr>whisper := WhisperFault\<rparr>)
              {memo_wav} memo_wav)
     = [Slept, Slept, Slept, Slept, Slept, Slept, Transcribe memo_wav]
   \<and> \<not> list_ex is_cleanup
         (actions (check_and_process_thread ((memo_env six_polls)\<lparr>whisper := WhisperFault\<rparr>)
                     {memo_wav} memo_wav))
   \<and> ending (check_and_process_thread ((memo_env six_polls)\<lparr>whisper := WhisperFault\<rparr>)
              {memo_wav} memo_wav) = Unhandled"
  by (simp add: check_and_process_thread_def memo_env_def six_polls_def start_def
        max_stable_count_def process_file_def try_body_def transcribe_audio_def)



text \<open>
  C9, as the code has it. What the Format stage hands to Persist depends on how the
  request ends. On a \<^verbatim>\<open>RequestException\<close> (endpoint unreachable, bad status) it is the raw
  text behind a prefix that says it could not be formatted; on a reply without a
  \<^verbatim>\<open>response\<close> field it is the constant text \<^verbatim>\<open>Error: No response from Ollama\<close>, without
  the raw text. In a run of a Stable file with a non-empty transcription, whatever
  \<open>format_text\<close> returns is what the Persist stage writes to the note in the output
  folder, and when the write completes, Notify and Cleanup follow. Any other exception
  inside \<open>format_text\<close> ends the run in the handler for unhandled errors: no note is
  written, no stage follows Format, and the registry entry is released.
\<close>

theorem format_outcome_decides_note:
  "format_text RequestException t
     = Inr (''Error: Could not connect to Ollama. Raw text: '' @ t)
   \<and> format_text (Reply None) t = Inr ''Error: No response from Ollama''
   \<and> format_text (Reply (Some formatted_text)) t = Inr formatted_text
   \<and> format_text HttpFault t = Inl Exception
   \<and> (stable_after (polls e) p files \<and> transcribe_audio (whisper e) = Inr (Some t)
        \<and> t \<noteq> [] \<longrightarrow>
      (format_text (ollama e) t = Inr formatted_note \<longrightarrow>
         stages (actions (check_and_process_thread e files p))
           = [Transcribe p, Format t,
              Persist (path_join e FINAL_OUTPUT_FOLDER
                         (splitext_root e (basename e p) @ ''.txt''))
                formatted_note (write_note e)]
             @ (case write_note e of
                  Done \<Rightarrow> [Notify (''New idea captured: ''
                                     @ splitext_root e (basename e p) @ ''.txt'') (ntfy_post e),
                            Cleanup p (os_remove e)]
                | Raises \<Rightarrow> []))
      \<and> (format_text (ollama e) t = Inl err \<longrightarrow>
         stages (actions (check_and_process_thread e files p)) = [Transcribe p, Format t]
         \<and> ending (check_and_process_thread e files p) = Unhandled
         \<and> registry (check_and_process_thread e files p) = files - {p}))"
proof (intro conjI impI)
  show "format_text RequestException t
          = Inr (''Error: Could not connect to Ollama. Raw text: '' @ t)"
    by (simp add: format_text_def)
  show "format_text (Reply None) t = Inr ''Error: No response from Ollama''"
    by (simp add: format_text_def)
  show "format_text (Reply (Some formatted_text)) t = Inr formatted_text"
    by (simp add: format_text_def)
  show "format_text HttpFault t = Inl Exception"
    by (simp add: format_text_def)
next
  assume h: "stable_after (polls e) p files \<and> transcribe_audio (whisper e) = Inr (Some t)
        \<and> t \<noteq> []"
  assume f: "format_text (ollama e) t = Inr formatted_note"
  from h have st: "stable_after (polls e) p files" by simp
  from thread_stable[OF st] obtain n where
    r: "check_and_process_thread e files p =
       \<lparr>registry = files - {p},
        actions = replicate n Slept @ snd (try_body e p []),
        ending = (case fst (try_body e p []) of None \<Rightarrow> Completed | Some _ \<Rightarrow> Unhandled)\<rparr>" .
  show "stages (actions (check_and_process_thread e files p))
           = [Transcribe p, Format t,
              Persist (path_join e FINAL_OUTPUT_FOLDER
                         (splitext_root e (basename e p) @ ''.txt''))
                formatted_note (write_note e)]
             @ (case write_note e of
                  Done \<Rightarrow> [Notify (''New idea captured: ''
                                     @ splitext_root e (basename e p) @ ''.txt'') (ntfy_post e),
                            Cleanup p (os_remove e)]
                | Raises \<Rightarrow> [])"
    using h f
    by (cases "write_note e")
       (simp_all add: r try_body_def note_stages_def stages_def Let_def)
next
  assume h: "stable_after (polls e) p files \<and> transcribe_audio (whisper e) = Inr (Some t)
        \<and> t \<noteq> []"
  assume f: "format_text (ollama e) t = Inl err"
  from h have st: "stable_after (polls e) p files" by simp
  from thread_stable[OF st] obtain n where
    r: "check_and_process_thread e files p =
       \<lparr>registry = files - {p},
        actions = replicate n Slept @ snd (try_body e p []),
        ending = (case fst (try_body e p []) of None \<Rightarrow> Completed | Some _ \<Rightarrow> Unhandled)\<rparr>" .
  have b: "try_body e p [] = (Some err, [Transcribe p, Format t])"
    using h f by (simp add: try_body_def note_stages_def)
  show "stages (actions (check_and_process_thread e files p)) = [Transcribe p, Format t]"
    by (simp add: r b stages_def)
  show "ending (check_and_process_thread e files p) = Unhandled"
    by (simp add: r b)
  show "registry (check_and_process_thread e files p) = files - {p}"
    by (simp add: r)
qed

text \<open>
  The scenario of the specification with Ollama unreachable, and with a fault inside
  \<open>format_text\<close> that is not a \<^verbatim>\<open>RequestException\<close>.
\<close>

theorem format_outcome_decides_note_witness:
  "stable_after (polls ((memo_env six_polls)\<lparr>ollama := RequestException\<rparr>)) memo_wav {memo_wav}
   \<and> stages (actions (check_and_process_thread
                ((memo_env six_polls)\<lparr>ollama := RequestException\<rparr>) {memo_wav} memo_wav))
       = [Transcribe memo_wav, Format ''buy milk'',
          Persist memo_txt ''Error: Could not connect to Ollama. Raw text: buy milk'' Done,
          Notify ''New idea captured: memo.txt'' Done,
          Cleanup memo_wav Done]
   \<and> stages (actions (check_and_process_thread
                ((memo_env six_polls)\<lparr>ollama := HttpFault\<rparr>) {memo_wav} memo_wav))
       = [Transcribe memo_wav, Format ''buy milk'']
   \<and> ending (check_and_process_thread
                ((memo_env six_polls)\<lparr>ollama := HttpFault\<rparr>) {memo_wav} memo_wav)
       = Unhandled"
proof -
  let ?e = "(memo_env six_polls)\<lparr>ollama := RequestException\<rparr>"
  let ?f = "(memo_env six_polls)\<lparr>ollama := HttpFault\<rparr>"
  have h1: "stable_after (polls ?e) memo_wav {memo_wav}"
    by (simp add: memo_env_def six_stable)
  have h2: "transcribe_audio (whisper ?e) = Inr (Some ''buy milk'')"
    by (simp add: memo_env_def transcribe_audio_def)
  have h3: "''buy milk'' \<noteq> []" by simp
  have h4: "format_text (ollama ?e) ''buy milk''
              = Inr (''Error: Could not connect to Ollama. Raw text: '' @ ''buy milk'')"
    by (simp add: format_text_def)
  have k1: "stable_after (polls ?f) memo_wav {memo_wav}"
    by (simp add: memo_env_def six_stable)
  have k2: "transcribe_audio (whisper ?f) = Inr (Some ''buy milk'')"
    by (simp add: memo_env_def transcribe_audio_def)
  have k4: "format_text (ollama ?f) ''buy milk'' = Inl Exception"
    by (simp add: format_text_def)
  have m: "splitext_root ?e (basename ?e memo_wav) = ''memo''"
    by (simp add: memo_env_def name2)
  have n2: "path_join (memo_env six_polls) FINAL_OUTPUT_FOLDER ''memo.txt'' = memo_txt"
    by (simp add: memo_env_def sample_join_def FINAL_OUTPUT_FOLDER_def memo_txt_def)
  have w: "write_note ?e = Done" "ntfy_post ?e = Done" "os_remove ?e = Done"
    by (simp_all add: memo_env_def)
  from format_outcome_decides_note[where t = "''buy milk''" and e = ?e and p = memo_wav
      and files = "{memo_wav}"
      and formatted_note = "''Error: Could not connect to Ollama. Raw text: '' @ ''buy milk''"]
    h1 h2 h3 h4
  have a: "stages (actions (check_and_process_thread ?e {memo_wav} memo_wav))
        = [Transcribe memo_wav, Format ''buy milk'',
           Persist (path_join ?e FINAL_OUTPUT_FOLDER
                      (splitext_root ?e (basename ?e memo_wav) @ ''.txt''))
             (''Error: Could not connect to Ollama. Raw text: '' @ ''buy milk'') (write_note ?e)]
          @ (case write_note ?e of
               Done \<Rightarrow> [Notify (''New idea captured: ''
                                  @ splitext_root ?e (basename ?e memo_wav) @ ''.txt'')
                           (ntfy_post ?e),
                         Cleanup memo_wav (os_remove ?e)]
             | Raises \<Rightarrow> [])"
    by blast
  from format_outcome_decides_note[where t = "''buy milk''" and e = ?f and p = memo_wav
      and files = "{memo_wav}" and err = Exception]
    k1 k2 h3 k4
  have b: "stages (actions (check_and_process_thread ?f {memo_wav} memo_wav))
             = [Transcribe memo_wav, Format ''buy milk'']
           \<and> ending (check_and_process_thread ?f {memo_wav} memo_wav) = Unhandled"
    by blast
  from a b h1 show ?thesis
    by (simp only: m w) (simp add: n2)
qed

text \<open>
  C9 as stated fails for Format failures other than a \<^verbatim>\<open>RequestException\<close>: after a fault
  inside \<open>format_text\<close> no note is written at all, and after a reply without a
  \<^verbatim>\<open>response\<close> field the note that is written does not contain the raw text.
\<close>

theorem format_failure_without_raw_text:
  "stages (actions (check_and_process_thread ((memo_env six_polls)\<lparr>ollama := HttpFault\<rparr>)
              {memo_wav} memo_wav))
     = [Transcribe memo_wav, Format ''buy milk'']
   \<and> \<not> list_ex is_written
         (actions (check_and_process_thread ((memo_env six_polls)\<lparr>ollama := HttpFault\<rparr>)
                     {memo_wav} memo_wav))
   \<and> stages (actions (check_and_process_thread ((memo_env six_polls)\<lparr>ollama := Reply None\<rparr>)
              {memo_wav} memo_wav))
     = [Transcribe memo_wav, Format ''buy milk'',
        Persist memo_txt ''Error: No response from Ollama'' Done,
        Notify ''New idea captured: memo.txt'' Done,
        Cleanup memo_wav Done]"
  by (simp add: check_and_process_thread_def memo_env_def six_polls_def start_def
        max_stable_count_def process_file_def try_body_def note_stages_def
        transcribe_audio_def format_text_def name2 stages_def Let_def
        sample_join_def FINAL_OUTPUT_FOLDER_def memo_txt_def)

text \<open>
  C10. In every run, a notification is attempted if and only if \<open>transcribe_audio\<close>
  returned a non-empty text and the write of the note completed; in terms of the outside
  world: the file became Stable, the transcription is not empty, \<open>format_text\<close>
  returned, and the write did not raise. When the write raises, no notification is sent.
\<close>

theorem notify_iff_text_and_written:
  "(list_ex is_notify (actions (check_and_process_thread e files p)) \<longleftrightarrow>
      (\<exists>raw_text. transcribe_audio (whisper e) = Inr raw_text \<and> truthy raw_text)
      \<and> list_ex is_written (actions (check_and_process_thread e files p)))
   \<and> (list_ex is_notify (actions (check_and_process_thread e files p)) \<longleftrightarrow>
      stable_after (polls e) p files
      \<and> (\<exists>t note. transcribe_audio (whisper e) = Inr (Some t) \<and> t \<noteq> []
             \<and> format_text (ollama e) t = Inr note)
      \<and> write_note e = Done)
   \<and> (write_note e = Raises \<longrightarrow>
        \<not> list_ex is_notify (actions (check_and_process_thread e files p)))"
proof (cases "stable_after (polls e) p files")
  case False
  from thread_not_stable[OF False] obtain n where
    "actions (check_and_process_thread e files p) = replicate n Slept" ..
  with False show ?thesis by simp
next
  case True
  note st = this
  from thread_stable[OF True] obtain n where
    r: "check_and_process_thread e files p =
       \<lparr>registry = files - {p},
        actions = replicate n Slept @ snd (try_body e p []),
        ending = (case fst (try_body e p []) of None \<Rightarrow> Completed | Some _ \<Rightarrow> Unhandled)\<rparr>" .
  show ?thesis
  proof (cases "transcribe_audio (whisper e)")
    case (Inl err)
    then show ?thesis by (simp add: r try_body_def)
  next
    case (Inr raw)
    note tr = this
    show ?thesis
    proof (cases raw)
      case None
      with tr show ?thesis by (simp add: r try_body_def)
    next
      case (Some t)
      show ?thesis
      proof (cases "t = []")
        case True
        with tr Some show ?thesis by (simp add: r try_body_def)
      next
        case False
        show ?thesis
        proof (cases "format_text (ollama e) t")
          case (Inl err)
          with tr Some False st show ?thesis
            by (simp add: r try_body_def note_stages_def)
        next
          case (Inr formatted)
          with tr Some False st show ?thesis
            by (cases "write_note e") (simp_all add: r try_body_def note_stages_def Let_def)
        qed
      qed
    qed
  qed
qed

text \<open>The scenario of the specification notifies; with a write that raises it does not.\<close>

theorem notify_iff_text_and_written_witness:
  "list_ex is_notify
     (actions (check_and_process_thread (memo_env six_polls) {memo_wav} memo_wav))
   \<and> list_ex is_written
     (actions (check_and_process_thread (memo_env six_polls) {memo_wav} memo_wav))
   \<and> \<not> list_ex is_notify
     (actions (check_and_process_thread ((memo_env six_polls)\<lparr>write_note := Raises\<rparr>)
                 {memo_wav} memo_wav))"
proof -
  let ?e = "memo_env six_polls"
  have h1: "stable_after (polls ?e) memo_wav {memo_wav}"
    by (simp add: memo_env_def six_stable)
  have h2: "transcribe_audio (whisper ?e) = Inr (Some ''buy milk'')"
    by (simp add: memo_env_def transcribe_audio_def)
  have h3: "''buy milk'' \<noteq> []" by simp
  have h4: "format_text (ollama ?e) ''buy milk'' = Inr ''- buy milk''"
    by (simp add: memo_env_def format_text_def)
  have h5: "write_note ?e = Done" by (simp add: memo_env_def)
  have t: "truthy (Some ''buy milk'')" by simp
  have a: "list_ex is_notify (actions (check_and_process_thread ?e {memo_wav} memo_wav))"
    using notify_iff_text_and_written[of ?e "{memo_wav}" memo_wav] h1 h2 h3 h4 h5
    by blast
  have b: "list_ex is_written (actions (check_and_process_thread ?e {memo_wav} memo_wav))"
    using notify_iff_text_and_written[of ?e "{memo_wav}" memo_wav] a
    by blast
  have c: "\<not> list_ex is_notify
     (actions (check_and_process_thread (?e\<lparr>write_note := Raises\<rparr>) {memo_wav} memo_wav))"
  proof -
    have "write_note (?e\<lparr>write_note := Raises\<rparr>) = Raises" by simp
    with notify_iff_text_and_written[of "?e\<lparr>write_note := Raises\<rparr>" "{memo_wav}" memo_wav]
    show ?thesis by blast
  qed
  from a b c show ?thesis by simp
qed

end
